theory Spec2Isabelle
  imports Complex_Main "HOL-Library.Multiset" "HOL-Library.Log_Nat"
begin

section \<open>Obesity risk calculator: the helpers and the two tabs of app.py\<close>

text \<open>
  The program is one Python file, \<^verbatim>\<open>Obesity App/app.py\<close>. Its own code is three
  helpers (\<^verbatim>\<open>build_row\<close>, \<^verbatim>\<open>interpret_label\<close>, \<^verbatim>\<open>pick_reasons\<close>), the probability
  table of the first tab and the BMI computation of the second tab.

  Conventions of the embedding:
  \<^item> a Python \<^verbatim>\<open>str\<close> is a \<^typ>\<open>string\<close>; a character beyond ASCII is written as the
    bytes of its UTF-8 encoding. All the needles searched for are ASCII, and an ASCII
    byte never occurs inside a multi-byte UTF-8 sequence, so containment of an ASCII
    needle is the same on bytes as on code points;
  \<^item> a Python \<^verbatim>\<open>int\<close> is an \<^typ>\<open>int\<close>;
  \<^item> a finite Python \<^verbatim>\<open>float\<close> is a \<^typ>\<open>real\<close>. In \<^verbatim>\<open>pick_reasons\<close> and in the
    probability table the code only compares floats: the slider values and the
    literals they are compared with are read as the decimals they are written as.
    In the BMI tab the code does arithmetic: there a float is the real number it
    denotes, and each operation returns the exact result rounded to the nearest
    binary64 value, ties to even, with overflow as Python reports it;
  \<^item> an exception is a value \<open>Inl e\<close> of a sum type.
\<close>

datatype py_error = ZeroDivisionError | ValueError | OverflowError

subsection \<open>Substring test: Python's \<^verbatim>\<open>needle in s\<close> on strings\<close>

fun starts_with :: "string \<Rightarrow> string \<Rightarrow> bool" where
  "starts_with s [] = True"
| "starts_with [] (p # ps) = False"
| "starts_with (c # cs) (p # ps) = (c = p \<and> starts_with cs ps)"

fun str_contains :: "string \<Rightarrow> string \<Rightarrow> bool" where
  "str_contains needle [] = (needle = [])"
| "str_contains needle (c # cs) = (starts_with (c # cs) needle \<or> str_contains needle cs)"

subsection \<open>\<^verbatim>\<open>interpret_label\<close> (app.py, lines 26 to 33)\<close>

definition interpret_label :: "string \<Rightarrow> string" where
  "interpret_label label =
     (if str_contains ''Obesity'' label then ''High risk''
      else if str_contains ''Overweight'' label then ''Moderate risk''
      else if str_contains ''Normal'' label then ''Healthy range''
      else ''Monitor'')"

subsection \<open>\<^verbatim>\<open>pick_reasons\<close> (app.py, lines 35 to 53)\<close>

definition reason_family :: string where
  "reason_family = ''Family history increases baseline risk.''"

definition reason_faf :: string where
  "reason_faf = ''Low physical activity (FAF) is linked with higher obesity levels.''"

definition reason_tue :: string where
  "reason_tue = ''Higher screen time (TUE) suggests a more sedentary lifestyle.''"

definition reason_caec :: string where
  "reason_caec =
     ''Frequent snacking between meals (CAEC) is associated with higher weight categories.''"

definition reason_fcvc :: string where
  "reason_fcvc = ''Lower vegetable intake (FCVC) reduces a protective dietary factor.''"

definition reason_ch2o :: string where
  "reason_ch2o = ''Lower water intake (CH2O) often correlates with less healthy routines.''"

definition reason_favc :: string where
  "reason_favc =
     ''Frequent high-calorie food (FAVC) can increase risk when combined with low activity.''"

definition reason_calc :: string where
  "reason_calc =
     ''Higher alcohol consumption (CALC) is associated with increased overweight risk in the data.''"

text \<open>One \<^verbatim>\<open>if cond: reasons.append(text)\<close> statement, as a step on the local list.\<close>

definition append_if :: "bool \<Rightarrow> string \<Rightarrow> string list \<Rightarrow> string list" where
  "append_if cond text reasons = (if cond then reasons @ [text] else reasons)"

text \<open>
  The arguments have the types the widgets of the first tab give them: \<^verbatim>\<open>family\<close> and
  \<^verbatim>\<open>favc\<close> come from select boxes over \<^verbatim>\<open>[0, 1]\<close>, \<^verbatim>\<open>caec\<close> and \<^verbatim>\<open>calc\<close> from select
  boxes over strings, the other four from float sliders.
\<close>

definition pick_reasons ::
  "int \<Rightarrow> real \<Rightarrow> real \<Rightarrow> string \<Rightarrow> real \<Rightarrow> real \<Rightarrow> int \<Rightarrow> string \<Rightarrow> string list" where
  "pick_reasons family faf tue caec fcvc ch2o favc calc =
     (let reasons = [];
          reasons = append_if (family = 1) reason_family reasons;
          reasons = append_if (faf \<le> 0.7) reason_faf reasons;
          reasons = append_if (tue \<ge> 1.2) reason_tue reasons;
          reasons = append_if (caec \<in> set [''Frequently'', ''Always'']) reason_caec reasons;
          reasons = append_if (fcvc \<le> 2.0) reason_fcvc reasons;
          reasons = append_if (ch2o \<le> 1.7) reason_ch2o reasons;
          reasons = append_if (favc = 1) reason_favc reasons;
          reasons = append_if (calc \<in> set [''Frequently'', ''Always'']) reason_calc reasons
      in take 4 reasons)"

text \<open>
  The same body as a relation between the inputs and the returned list, one rule for
  each way an \<^verbatim>\<open>if\<close> statement can go: the list before the statement, the list after.
\<close>

inductive append_step :: "bool \<Rightarrow> string \<Rightarrow> string list \<Rightarrow> string list \<Rightarrow> bool" where
  taken: "cond \<Longrightarrow> append_step cond text reasons (reasons @ [text])"
| skipped: "\<not> cond \<Longrightarrow> append_step cond text reasons reasons"

code_pred append_step .

inductive pick_reasons_run ::
  "int \<Rightarrow> real \<Rightarrow> real \<Rightarrow> string \<Rightarrow> real \<Rightarrow> real \<Rightarrow> int \<Rightarrow> string \<Rightarrow> string list \<Rightarrow> bool" where
  run:
  "append_step (family = 1) reason_family [] r1 \<Longrightarrow>
   append_step (faf \<le> 0.7) reason_faf r1 r2 \<Longrightarrow>
   append_step (tue \<ge> 1.2) reason_tue r2 r3 \<Longrightarrow>
   append_step (caec \<in> set [''Frequently'', ''Always'']) reason_caec r3 r4 \<Longrightarrow>
   append_step (fcvc \<le> 2.0) reason_fcvc r4 r5 \<Longrightarrow>
   append_step (ch2o \<le> 1.7) reason_ch2o r5 r6 \<Longrightarrow>
   append_step (favc = 1) reason_favc r6 r7 \<Longrightarrow>
   append_step (calc \<in> set [''Frequently'', ''Always'']) reason_calc r7 r8 \<Longrightarrow>
   pick_reasons_run family faf tue caec fcvc ch2o favc calc (take 4 r8)"

code_pred pick_reasons_run .

text \<open>
  What the body amounts to, in words: the eight canned texts with their trigger
  conditions, in the order the statements are written, and the texts whose condition
  holds.
\<close>

definition reason_rules ::
  "int \<Rightarrow> real \<Rightarrow> real \<Rightarrow> string \<Rightarrow> real \<Rightarrow> real \<Rightarrow> int \<Rightarrow> string \<Rightarrow> (bool \<times> string) list" where
  "reason_rules family faf tue caec fcvc ch2o favc calc =
     [(family = 1, reason_family),
      (faf \<le> 0.7, reason_faf),
      (tue \<ge> 1.2, reason_tue),
      (caec = ''Frequently'' \<or> caec = ''Always'', reason_caec),
      (fcvc \<le> 2.0, reason_fcvc),
      (ch2o \<le> 1.7, reason_ch2o),
      (favc = 1, reason_favc),
      (calc = ''Frequently'' \<or> calc = ''Always'', reason_calc)]"

definition triggered_reasons :: "(bool \<times> string) list \<Rightarrow> string list" where
  "triggered_reasons rules = map snd (filter fst rules)"

subsection \<open>\<^verbatim>\<open>build_row\<close> (app.py, lines 22 to 24)\<close>

text \<open>
  A cell holds one of the Python values the widgets produce. A data frame is its column
  names and its rows. \<^verbatim>\<open>pd.DataFrame([row], columns=cols)\<close> raises \<^verbatim>\<open>ValueError\<close> when
  the number of column names differs from the number of cells of the row.
  \<^verbatim>\<open>feature_cols\<close> is a global of the module, loaded from a pickle file; it is a
  parameter here.
\<close>

datatype cell = IntCell int | FloatCell real | StrCell string

record data_frame =
  df_columns :: "string list"
  df_rows :: "cell list list"

definition DataFrame_row :: "cell list \<Rightarrow> string list \<Rightarrow> py_error + data_frame" where
  "DataFrame_row row cols =
     (if length cols = length row then Inr \<lparr>df_columns = cols, df_rows = [row]\<rparr>
      else Inl ValueError)"

definition build_row ::
  "string list \<Rightarrow> cell \<Rightarrow> cell \<Rightarrow> cell \<Rightarrow> cell \<Rightarrow> cell \<Rightarrow> cell \<Rightarrow> cell \<Rightarrow> cell \<Rightarrow> cell \<Rightarrow> cell \<Rightarrow>
   cell \<Rightarrow> cell \<Rightarrow> cell \<Rightarrow> cell \<Rightarrow> py_error + data_frame" where
  "build_row feature_cols gender age family favc fcvc ncp caec smoke ch2o scc faf tue calc mtrans =
     (let row = [gender, age, family, favc, fcvc, ncp, caec, smoke, ch2o, scc, faf, tue,
                 calc, mtrans]
      in DataFrame_row row feature_cols)"

subsection \<open>The probability table of the first tab (app.py, lines 148 to 152)\<close>

text \<open>
  The table has the two columns \<^verbatim>\<open>Category\<close> and \<^verbatim>\<open>Probability\<close>; a row is a pair.
  Building a frame from two columns of different lengths raises \<^verbatim>\<open>ValueError\<close>.
  \<^verbatim>\<open>sort_values("Probability", ascending=False)\<close> is a library call; it is modelled as a
  sort on the negated key. Which of two rows of equal probability comes first is not
  fixed by the library's default sort, and nothing proved below depends on it.
\<close>

type_synonym prob_row = "string \<times> real"

definition category :: "prob_row \<Rightarrow> string" where
  "category r = fst r"

definition probability :: "prob_row \<Rightarrow> real" where
  "probability r = snd r"

definition prob_frame :: "string list \<Rightarrow> real list \<Rightarrow> py_error + prob_row list" where
  "prob_frame classes proba =
     (if length classes = length proba then Inr (zip classes proba) else Inl ValueError)"

definition sort_values_desc :: "prob_row list \<Rightarrow> prob_row list" where
  "sort_values_desc df = sort_key (\<lambda>r. - probability r) df"

definition prob_df :: "string list \<Rightarrow> real list \<Rightarrow> py_error + prob_row list" where
  "prob_df classes proba =
     (case prob_frame classes proba of
        Inl e \<Rightarrow> Inl e
      | Inr df \<Rightarrow> Inr (sort_values_desc df))"

definition head3 :: "prob_row list \<Rightarrow> prob_row list" where
  "head3 df = take 3 df"

subsection \<open>The BMI tab (app.py, lines 168 to 194)\<close>

text \<open>
  The two number inputs are created with integer bounds, default and step, so they
  return Python integers inside their bounds.
\<close>

definition height_input :: "int \<Rightarrow> bool" where
  "height_input height_cm \<longleftrightarrow> 120 \<le> height_cm \<and> height_cm \<le> 230"

definition weight_input :: "int \<Rightarrow> bool" where
  "weight_input weight_kg \<longleftrightarrow> 35 \<le> weight_kg \<and> weight_kg \<le> 200"

text \<open>
  Binary64 arithmetic. \<open>round_half_even\<close> is the nearest integer, ties to the even
  one. \<open>floorlog2 x\<close> is the exponent of the power of two at or below a positive
  \<open>x\<close>. \<open>binary64 x\<close> is the value nearest to \<open>x\<close> with a 53-bit significand, and
  below the normal range the nearest multiple of \<open>2 powi - 1074\<close>; it puts no upper
  limit on the exponent, so a result of magnitude \<open>2 ^ 1024\<close> or more stands for an
  overflow, which \<open>finite64\<close> detects.
\<close>

definition round_half_even :: "real \<Rightarrow> int" where
  "round_half_even y =
     (let f = \<lfloor>y\<rfloor>; d = y - of_int f
      in if d < 1 / 2 then f else if 1 / 2 < d then f + 1 else if even f then f else f + 1)"

definition floorlog2 :: "real \<Rightarrow> int" where
  "floorlog2 x = (if 1 \<le> x then bitlen \<lfloor>x\<rfloor> - 1 else - bitlen (\<lceil>1 / x\<rceil> - 1))"

definition binary64 :: "real \<Rightarrow> real" where
  "binary64 x =
     (if x = 0 then 0
      else let e = max (floorlog2 \<bar>x\<bar> - 52) (- 1074)
           in of_int (round_half_even (x / 2 powi e)) * 2 powi e)"

definition finite64 :: "real \<Rightarrow> bool" where
  "finite64 r \<longleftrightarrow> \<bar>r\<bar> < 2 ^ 1024"

text \<open>
  A float value: finite, or one of the two infinities. A division of floats that
  overflows returns an infinity and raises nothing.
\<close>

datatype pyfloat = Finite real | PosInf | NegInf

text \<open>
  \<^verbatim>\<open>int / int\<close>: a zero divisor raises \<^verbatim>\<open>ZeroDivisionError\<close>; otherwise the quotient
  of the two integers is rounded once, and a quotient too large for a float raises
  \<^verbatim>\<open>OverflowError\<close>.
\<close>

definition int_truediv :: "int \<Rightarrow> int \<Rightarrow> py_error + real" where
  "int_truediv a b =
     (if b = 0 then Inl ZeroDivisionError
      else let q = binary64 (of_int a / of_int b)
           in if finite64 q then Inr q else Inl OverflowError)"

text \<open>
  \<^verbatim>\<open>x ** 2\<close> on a float: the square rounded once (the C library's \<^verbatim>\<open>pow\<close> is taken
  to round a square correctly); a result out of range raises \<^verbatim>\<open>OverflowError\<close>.
\<close>

definition float_pow2 :: "real \<Rightarrow> py_error + real" where
  "float_pow2 x =
     (let p = binary64 (x ^ 2) in if finite64 p then Inr p else Inl OverflowError)"

text \<open>
  \<^verbatim>\<open>int / float\<close>: the integer is converted to a float first (\<^verbatim>\<open>OverflowError\<close> when
  it is too large), then a zero divisor raises \<^verbatim>\<open>ZeroDivisionError\<close>, and otherwise
  the quotient is rounded, to an infinity when it overflows.
\<close>

definition int_float_truediv :: "int \<Rightarrow> real \<Rightarrow> py_error + pyfloat" where
  "int_float_truediv a b =
     (let fa = binary64 (of_int a)
      in if \<not> finite64 fa then Inl OverflowError
         else if b = 0 then Inl ZeroDivisionError
         else let q = binary64 (fa / b)
              in Inr (if finite64 q then Finite q else if 0 < q then PosInf else NegInf))"

text \<open>Lines 179 and 180: \<^verbatim>\<open>height_m = height_cm / 100\<close>, \<^verbatim>\<open>bmi = weight_kg / (height_m ** 2)\<close>.\<close>

definition bmi_value :: "int \<Rightarrow> int \<Rightarrow> py_error + pyfloat" where
  "bmi_value height_cm weight_kg =
     (case int_truediv height_cm 100 of
        Inl e \<Rightarrow> Inl e
      | Inr height_m \<Rightarrow>
          (case float_pow2 height_m of
             Inl e \<Rightarrow> Inl e
           | Inr sq \<Rightarrow> int_float_truediv weight_kg sq))"


text \<open>The four Streamlit calls that show a message, each with its text.\<close>

datatype alert = St_info string | St_success string | St_warning string | St_error string

definition underweight_text :: string where
  "underweight_text =
     ''You'' @ [CHR 0x27] @ ''re lighter than a feather '' @
     [CHR 0xF0, CHR 0x9F, CHR 0xAA, CHR 0xB6] @ '' '' @ [CHR 0xE2, CHR 0x80, CHR 0x94] @
     '' maybe grab a sandwich and a smoothie!''"

definition healthy_text :: string where
  "healthy_text =
     ''Perfectly shaped '' @ [CHR 0xF0, CHR 0x9F, CHR 0x98, CHR 0x8E] @
     [CHR 0xE2, CHR 0x9C, CHR 0xA8] @ '' '' @ [CHR 0xE2, CHR 0x80, CHR 0x94] @
     '' your body called, it says '' @ [CHR 0x27] @ ''keep it up!'' @ [CHR 0x27]"

definition overweight_text :: string where
  "overweight_text =
     ''You'' @ [CHR 0x27] @ ''re in the '' @ [CHR 0x27] @ ''extra cuddle mode'' @ [CHR 0x27] @
     '' zone '' @ [CHR 0xF0, CHR 0x9F, CHR 0xA7, CHR 0xB8] @ '' '' @
     [CHR 0xE2, CHR 0x80, CHR 0x94] @ '' a bit more movement could help!''"

definition high_text :: string where
  "high_text =
     ''You'' @ [CHR 0x27] @ ''re in '' @ [CHR 0x27] @ ''boss-level mass'' @ [CHR 0x27] @
     '' mode '' @ [CHR 0xF0, CHR 0x9F, CHR 0xA6, CHR 0x8D] @ '' '' @
     [CHR 0xE2, CHR 0x80, CHR 0x94] @
     '' consider healthier habits (and maybe fewer midnight snacks).''"

definition bmi_comment :: "real \<Rightarrow> alert" where
  "bmi_comment bmi =
     (if bmi < 18.5 then St_info underweight_text
      else if bmi < 25 then St_success healthy_text
      else if bmi < 30 then St_warning overweight_text
      else St_error high_text)"

text \<open>
  What a click on the button computes: the BMI and the comment shown for it. A finite
  BMI goes through the comparisons of \<open>bmi_comment\<close>; plus infinity fails all three
  tests and reaches the last branch; minus infinity passes the first test.
\<close>

definition bmi_check :: "int \<Rightarrow> int \<Rightarrow> py_error + pyfloat \<times> alert" where
  "bmi_check height_cm weight_kg =
     (case bmi_value height_cm weight_kg of
        Inl e \<Rightarrow> Inl e
      | Inr (Finite bmi) \<Rightarrow> Inr (Finite bmi, bmi_comment bmi)
      | Inr PosInf \<Rightarrow> Inr (PosInf, St_error high_text)
      | Inr NegInf \<Rightarrow> Inr (NegInf, St_info underweight_text))"

text \<open>
  The four bands in words: the range of each, the comment that belongs to each, and
  their order from lowest to highest.
\<close>

datatype band = Underweight | Healthy | Overweight | High

fun band_range :: "band \<Rightarrow> real \<Rightarrow> bool" where
  "band_range Underweight bmi = (bmi < 18.5)"
| "band_range Healthy bmi = (18.5 \<le> bmi \<and> bmi < 25)"
| "band_range Overweight bmi = (25 \<le> bmi \<and> bmi < 30)"
| "band_range High bmi = (30 \<le> bmi)"

fun band_comment :: "band \<Rightarrow> alert" where
  "band_comment Underweight = St_info underweight_text"
| "band_comment Healthy = St_success healthy_text"
| "band_comment Overweight = St_warning overweight_text"
| "band_comment High = St_error high_text"

fun band_rank :: "band \<Rightarrow> nat" where
  "band_rank Underweight = 0"
| "band_rank Healthy = 1"
| "band_rank Overweight = 2"
| "band_rank High = 3"

section \<open>Properties\<close>

subsection \<open>Substring test\<close>

lemma starts_with_iff: "starts_with s p \<longleftrightarrow> (\<exists>post. s = p @ post)"
  by (induction s p rule: starts_with.induct) auto

lemma str_contains_iff:
  "str_contains needle s \<longleftrightarrow> (\<exists>pre post. s = pre @ needle @ post)"
proof (induction s)
  case Nil
  show ?case by auto
next
  case (Cons c cs)
  show ?case
  proof
    assume "str_contains needle (c # cs)"
    then consider "starts_with (c # cs) needle" | "str_contains needle cs"
      by auto
    then show "\<exists>pre post. c # cs = pre @ needle @ post"
    proof cases
      case 1
      then obtain post where "c # cs = needle @ post"
        using starts_with_iff by blast
      then have "c # cs = [] @ needle @ post" by simp
      then show ?thesis by blast
    next
      case 2
      then obtain pre post where "cs = pre @ needle @ post"
        using Cons.IH by blast
      then have "c # cs = (c # pre) @ needle @ post" by simp
      then show ?thesis by blast
    qed
  next
    assume "\<exists>pre post. c # cs = pre @ needle @ post"
    then obtain pre post where eq: "c # cs = pre @ needle @ post"
      by blast
    show "str_contains needle (c # cs)"
    proof (cases pre)
      case Nil
      with eq have "starts_with (c # cs) needle"
        using starts_with_iff by auto
      then show ?thesis by simp
    next
      case (Cons d pre')
      with eq have "cs = pre' @ needle @ post" by simp
      then have "str_contains needle cs"
        using Cons.IH by blast
      then show ?thesis by simp
    qed
  qed
qed

subsection \<open>Risk band of a label\<close>

text \<open>
  Claim C2. \<^verbatim>\<open>interpret_label\<close> depends on its argument through containment of three
  words only, tried in order: a label that contains \<^verbatim>\<open>Obesity\<close> gives \<^verbatim>\<open>High risk\<close>;
  otherwise one that contains \<^verbatim>\<open>Overweight\<close> gives \<^verbatim>\<open>Moderate risk\<close>; otherwise one
  that contains \<^verbatim>\<open>Normal\<close> gives \<^verbatim>\<open>Healthy range\<close>; every other label gives
  \<^verbatim>\<open>Monitor\<close>. A label contains a word when it is some prefix, the word, some suffix.
\<close>

theorem interpret_label_containment:
  "((\<exists>pre post. label = pre @ ''Obesity'' @ post) \<longrightarrow>
      interpret_label label = ''High risk'') \<and>
   (\<not> (\<exists>pre post. label = pre @ ''Obesity'' @ post) \<and>
    (\<exists>pre post. label = pre @ ''Overweight'' @ post) \<longrightarrow>
      interpret_label label = ''Moderate risk'') \<and>
   (\<not> (\<exists>pre post. label = pre @ ''Obesity'' @ post) \<and>
    \<not> (\<exists>pre post. label = pre @ ''Overweight'' @ post) \<and>
    (\<exists>pre post. label = pre @ ''Normal'' @ post) \<longrightarrow>
      interpret_label label = ''Healthy range'') \<and>
   (\<not> (\<exists>pre post. label = pre @ ''Obesity'' @ post) \<and>
    \<not> (\<exists>pre post. label = pre @ ''Overweight'' @ post) \<and>
    \<not> (\<exists>pre post. label = pre @ ''Normal'' @ post) \<longrightarrow>
      interpret_label label = ''Monitor'')"
  unfolding str_contains_iff [symmetric] by (simp add: interpret_label_def)

theorem interpret_label_containment_witness:
  "(\<exists>pre post. ''Obesity_Type_I'' = pre @ ''Obesity'' @ post) \<and>
   interpret_label ''Obesity_Type_I'' = ''High risk'' \<and>
   \<not> (\<exists>pre post. ''Overweight_Level_II'' = pre @ ''Obesity'' @ post) \<and>
   (\<exists>pre post. ''Overweight_Level_II'' = pre @ ''Overweight'' @ post) \<and>
   interpret_label ''Overweight_Level_II'' = ''Moderate risk'' \<and>
   \<not> (\<exists>pre post. ''Normal_Weight'' = pre @ ''Obesity'' @ post) \<and>
   \<not> (\<exists>pre post. ''Normal_Weight'' = pre @ ''Overweight'' @ post) \<and>
   (\<exists>pre post. ''Normal_Weight'' = pre @ ''Normal'' @ post) \<and>
   interpret_label ''Normal_Weight'' = ''Healthy range'' \<and>
   \<not> (\<exists>pre post. ''Insufficient_Weight'' = pre @ ''Obesity'' @ post) \<and>
   \<not> (\<exists>pre post. ''Insufficient_Weight'' = pre @ ''Overweight'' @ post) \<and>
   \<not> (\<exists>pre post. ''Insufficient_Weight'' = pre @ ''Normal'' @ post) \<and>
   interpret_label ''Insufficient_Weight'' = ''Monitor''"
  using interpret_label_containment [of "''Obesity_Type_I''"]
    interpret_label_containment [of "''Overweight_Level_II''"]
    interpret_label_containment [of "''Normal_Weight''"]
    interpret_label_containment [of "''Insufficient_Weight''"]
  unfolding str_contains_iff [symmetric] by simp

subsection \<open>Reason selection\<close>

lemma append_if_append: "append_if c s rs = rs @ (if c then [s] else [])"
  by (simp add: append_if_def)

lemma triggered_reasons_Cons:
  "triggered_reasons ((c, s) # rules) = (if c then [s] else []) @ triggered_reasons rules"
  by (simp add: triggered_reasons_def)

lemma triggered_reasons_Nil: "triggered_reasons [] = []"
  by (simp add: triggered_reasons_def)

lemma in_two: "x \<in> set [a, b] \<longleftrightarrow> x = a \<or> x = b"
  by auto

lemma pick_reasons_eq_take:
  "pick_reasons family faf tue caec fcvc ch2o favc calc =
     take 4 (triggered_reasons (reason_rules family faf tue caec fcvc ch2o favc calc))"
  unfolding pick_reasons_def Let_def in_two reason_rules_def
    triggered_reasons_Cons triggered_reasons_Nil append_if_append
  by (simp only: append_assoc append_Nil append_Nil2)

lemma reasons_distinct:
  "distinct [reason_family, reason_faf, reason_tue, reason_caec, reason_fcvc, reason_ch2o,
             reason_favc, reason_calc]"
  by (simp add: reason_family_def reason_faf_def reason_tue_def reason_caec_def
      reason_fcvc_def reason_ch2o_def reason_favc_def reason_calc_def)

lemma triggered_distinct:
  "distinct (triggered_reasons (reason_rules family faf tue caec fcvc ch2o favc calc))"
proof -
  have "distinct (map snd (reason_rules family faf tue caec fcvc ch2o favc calc))"
    using reasons_distinct by (simp add: reason_rules_def)
  then show ?thesis
    unfolding triggered_reasons_def by (rule distinct_map_filter)
qed

lemma append_step_iff: "append_step c s r r' \<longleftrightarrow> r' = append_if c s r"
  by (auto simp: append_if_def elim: append_step.cases intro: append_step.intros)

lemma pick_reasons_run_iff:
  "pick_reasons_run family faf tue caec fcvc ch2o favc calc r \<longleftrightarrow>
   r = pick_reasons family faf tue caec fcvc ch2o favc calc"
proof
  assume "pick_reasons_run family faf tue caec fcvc ch2o favc calc r"
  then show "r = pick_reasons family faf tue caec fcvc ch2o favc calc"
  proof (cases rule: pick_reasons_run.cases)
    case (run r1 r2 r3 r4 r5 r6 r7 r8)
    then show ?thesis
      unfolding append_step_iff pick_reasons_def Let_def by simp
  qed
next
  assume r: "r = pick_reasons family faf tue caec fcvc ch2o favc calc"
  have "pick_reasons_run family faf tue caec fcvc ch2o favc calc
          (pick_reasons family faf tue caec fcvc ch2o favc calc)"
    unfolding pick_reasons_def Let_def
    by (rule pick_reasons_run.run; simp only: append_step_iff)
  with r show "pick_reasons_run family faf tue caec fcvc ch2o favc calc r"
    by simp
qed

text \<open>
  Claim C3. For every combination of its eight inputs, \<^verbatim>\<open>pick_reasons\<close> returns a list
  of at most four strings.
\<close>

theorem pick_reasons_at_most_four:
  "length (pick_reasons family faf tue caec fcvc ch2o favc calc) \<le> 4"
  by (simp add: pick_reasons_def Let_def)

theorem pick_reasons_at_most_four_witness:
  "length (pick_reasons 1 0 2 ''Always'' 1 1 1 ''Always'') = 4 \<and>
   length (pick_reasons 1 0 2 ''Always'' 1 1 1 ''Always'') \<le> 4 \<and>
   length (pick_reasons 0 3 0 ''no'' 3 3 0 ''no'') = 0"
  using pick_reasons_at_most_four [of 1 0 2 "''Always''" 1 1 1 "''Always''"]
  by (simp add: pick_reasons_def Let_def append_if_def)

text \<open>
  Claim C5. \<^verbatim>\<open>pick_reasons\<close> is deterministic and order-stable: two runs of its body
  on the same eight inputs return the same list, of the same length, with the same
  element at every position.
\<close>

theorem pick_reasons_deterministic:
  assumes "pick_reasons_run family faf tue caec fcvc ch2o favc calc r"
    and "pick_reasons_run family faf tue caec fcvc ch2o favc calc r'"
  shows "r = r' \<and> length r = length r' \<and> (\<forall>i < length r. r ! i = r' ! i)"
proof -
  from assms have "r = r'"
    by (simp only: pick_reasons_run_iff)
  then show ?thesis by simp
qed

theorem pick_reasons_deterministic_witness:
  "pick_reasons_run 1 1 1 ''Sometimes'' 2 2 1 ''Sometimes''
     [reason_family, reason_fcvc, reason_favc] \<and>
   pick_reasons_run 1 1 1 ''Sometimes'' 2 2 1 ''Sometimes''
     (pick_reasons 1 1 1 ''Sometimes'' 2 2 1 ''Sometimes'') \<and>
   [reason_family, reason_fcvc, reason_favc] =
     pick_reasons 1 1 1 ''Sometimes'' 2 2 1 ''Sometimes''"
proof -
  have eq: "pick_reasons 1 1 1 ''Sometimes'' 2 2 1 ''Sometimes'' =
      [reason_family, reason_fcvc, reason_favc]"
    by (simp add: pick_reasons_def Let_def append_if_def)
  have r1: "pick_reasons_run 1 1 1 ''Sometimes'' 2 2 1 ''Sometimes''
      [reason_family, reason_fcvc, reason_favc]"
    by (simp only: pick_reasons_run_iff eq)
  have r2: "pick_reasons_run 1 1 1 ''Sometimes'' 2 2 1 ''Sometimes''
      (pick_reasons 1 1 1 ''Sometimes'' 2 2 1 ''Sometimes'')"
    by (simp only: pick_reasons_run_iff)
  from pick_reasons_deterministic [OF r1 r2] r1 r2 show ?thesis
    by simp
qed

text \<open>
  Claim C10. \<^verbatim>\<open>pick_reasons\<close> returns exactly the first four of the canned texts whose
  trigger conditions hold, in declaration order; a text that is triggered but comes
  after the first four triggered ones, such as the alcohol reason when all eight
  conditions hold, is not in the result.
\<close>

theorem pick_reasons_first_four:
  "pick_reasons family faf tue caec fcvc ch2o favc calc =
     take 4 (triggered_reasons (reason_rules family faf tue caec fcvc ch2o favc calc)) \<and>
   (\<forall>s \<in> set (drop 4 (triggered_reasons
                         (reason_rules family faf tue caec fcvc ch2o favc calc))).
      s \<notin> set (pick_reasons family faf tue caec fcvc ch2o favc calc))"
proof -
  let ?t = "triggered_reasons (reason_rules family faf tue caec fcvc ch2o favc calc)"
  have eq: "pick_reasons family faf tue caec fcvc ch2o favc calc = take 4 ?t"
    by (rule pick_reasons_eq_take)
  have "set (take 4 ?t) \<inter> set (drop 4 ?t) = {}"
    using triggered_distinct by (rule set_take_disj_set_drop_if_distinct) simp
  with eq show ?thesis by auto
qed

theorem pick_reasons_first_four_witness:
  "pick_reasons 1 0 2 ''Always'' 1 1 1 ''Always'' =
     [reason_family, reason_faf, reason_tue, reason_caec] \<and>
   reason_calc \<in> set (drop 4 (triggered_reasons
                          (reason_rules 1 0 2 ''Always'' 1 1 1 ''Always''))) \<and>
   reason_calc \<notin> set (pick_reasons 1 0 2 ''Always'' 1 1 1 ''Always'')"
proof -
  have t: "triggered_reasons (reason_rules 1 0 2 ''Always'' 1 1 1 ''Always'') =
      [reason_family, reason_faf, reason_tue, reason_caec, reason_fcvc, reason_ch2o,
       reason_favc, reason_calc]"
    by (simp add: reason_rules_def triggered_reasons_def)
  from pick_reasons_first_four [of 1 0 2 "''Always''" 1 1 1 "''Always''"] show ?thesis
    unfolding t by auto
qed

subsection \<open>The single-row table\<close>

text \<open>
  Claim C7. When \<^verbatim>\<open>feature_cols\<close> has 14 entries, \<^verbatim>\<open>build_row\<close> returns a table with
  exactly one row, whose cells are the 14 arguments in argument order, and whose
  column names are \<^verbatim>\<open>feature_cols\<close>.
\<close>

theorem build_row_single_row:
  assumes "length feature_cols = 14"
  shows "\<exists>df. build_row feature_cols gender age family favc fcvc ncp caec smoke ch2o scc
                 faf tue calc mtrans = Inr df \<and>
              df_columns df = feature_cols \<and>
              length (df_rows df) = 1 \<and>
              df_rows df = [ [gender, age, family, favc, fcvc, ncp, caec, smoke, ch2o, scc,
                              faf, tue, calc, mtrans] ]"
  using assms by (simp add: build_row_def DataFrame_row_def)

theorem build_row_single_row_witness:
  "length [''Gender'', ''Age'', ''family_history_with_overweight'', ''FAVC'', ''FCVC'',
           ''NCP'', ''CAEC'', ''SMOKE'', ''CH2O'', ''SCC'', ''FAF'', ''TUE'', ''CALC'',
           ''MTRANS''] = 14 \<and>
   (\<exists>df. build_row [''Gender'', ''Age'', ''family_history_with_overweight'', ''FAVC'',
             ''FCVC'', ''NCP'', ''CAEC'', ''SMOKE'', ''CH2O'', ''SCC'', ''FAF'', ''TUE'',
             ''CALC'', ''MTRANS'']
           (StrCell ''Female'') (IntCell 25) (IntCell 1) (IntCell 1) (FloatCell 2)
           (FloatCell 3) (StrCell ''Sometimes'') (IntCell 0) (FloatCell 2) (IntCell 0)
           (FloatCell 1) (FloatCell 1) (StrCell ''Sometimes'')
           (StrCell ''Public_Transportation'') = Inr df \<and>
         df_rows df =
           [ [StrCell ''Female'', IntCell 25, IntCell 1, IntCell 1, FloatCell 2, FloatCell 3,
             StrCell ''Sometimes'', IntCell 0, FloatCell 2, IntCell 0, FloatCell 1,
             FloatCell 1, StrCell ''Sometimes'', StrCell ''Public_Transportation''] ])"
proof -
  have len: "length [''Gender'', ''Age'', ''family_history_with_overweight'', ''FAVC'',
      ''FCVC'', ''NCP'', ''CAEC'', ''SMOKE'', ''CH2O'', ''SCC'', ''FAF'', ''TUE'', ''CALC'',
      ''MTRANS''] = 14"
    by simp
  from build_row_single_row [OF len, of "StrCell ''Female''" "IntCell 25" "IntCell 1"
      "IntCell 1" "FloatCell 2" "FloatCell 3" "StrCell ''Sometimes''" "IntCell 0"
      "FloatCell 2" "IntCell 0" "FloatCell 1" "FloatCell 1" "StrCell ''Sometimes''"
      "StrCell ''Public_Transportation''"] len
  show ?thesis by blast
qed

subsection \<open>The probability table\<close>

lemma sort_values_desc_mset: "mset (sort_values_desc df) = mset df"
  by (simp add: sort_values_desc_def)

lemma sort_values_desc_sorted:
  "sorted_wrt (\<lambda>r s. probability s \<le> probability r) (sort_values_desc df)"
proof -
  have "sorted (map (\<lambda>r. - probability r) (sort_values_desc df))"
    unfolding sort_values_desc_def by (rule sorted_sort_key)
  then show ?thesis
    by (simp add: sorted_wrt_map)
qed

text \<open>
  Claim C8. For a probability vector as long as the list of classes, the table pairs each
  class with its probability (its rows are the pairs of the two lists, rearranged), it
  is sorted by probability in descending order, and the top-3 table is its first
  three rows.
\<close>

theorem prob_df_sorted_descending:
  assumes "length classes = length proba"
  shows "\<exists>df. prob_df classes proba = Inr df \<and>
              mset df = mset (zip classes proba) \<and>
              mset (map category df) = mset classes \<and>
              sorted_wrt (\<lambda>r s. probability s \<le> probability r) df \<and>
              head3 df = take 3 df \<and>
              length (head3 df) = min 3 (length proba)"
proof -
  let ?df = "sort_values_desc (zip classes proba)"
  have run: "prob_df classes proba = Inr ?df"
    using assms by (simp add: prob_df_def prob_frame_def)
  have perm: "mset ?df = mset (zip classes proba)"
    by (rule sort_values_desc_mset)
  have srt: "sorted_wrt (\<lambda>r s. probability s \<le> probability r) ?df"
    by (rule sort_values_desc_sorted)
  have len: "length ?df = length proba"
    using assms perm by (metis length_zip min.idem size_mset)
  have hd3: "length (head3 ?df) = min 3 (length proba)"
    by (simp add: head3_def len min.commute)
  have "mset (map category ?df) = mset (map category (zip classes proba))"
    using perm by (metis mset_map)
  also have "map category (zip classes proba) = classes"
    using assms by (simp add: category_def [abs_def])
  finally have cats: "mset (map category ?df) = mset classes" .
  from run perm srt hd3 cats show ?thesis
    by (simp add: head3_def)
qed

theorem prob_df_sorted_descending_witness:
  "length [''A'', ''B'', ''C'', ''D''] = length [0.1, 0.4, 0.2, 0.3 :: real] \<and>
   prob_df [''A'', ''B'', ''C'', ''D''] [0.1, 0.4, 0.2, 0.3] =
     Inr [(''B'', 0.4), (''D'', 0.3), (''C'', 0.2), (''A'', 0.1)] \<and>
   head3 [(''B'', 0.4), (''D'', 0.3), (''C'', 0.2), (''A'', 0.1)] =
     [(''B'', 0.4), (''D'', 0.3), (''C'', 0.2)] \<and>
   (\<exists>df. prob_df [''A'', ''B'', ''C'', ''D''] [0.1, 0.4, 0.2, 0.3] = Inr df \<and>
         sorted_wrt (\<lambda>r s. probability s \<le> probability r) df \<and>
         length (head3 df) = 3)"
proof -
  have len: "length [''A'', ''B'', ''C'', ''D''] = length [0.1, 0.4, 0.2, 0.3 :: real]"
    by simp
  have run: "prob_df [''A'', ''B'', ''C'', ''D''] [0.1, 0.4, 0.2, 0.3] =
      Inr [(''B'', 0.4), (''D'', 0.3), (''C'', 0.2), (''A'', 0.1)]"
    by (simp add: prob_df_def prob_frame_def sort_values_desc_def probability_def)
  have top: "head3 [(''B'', 0.4 :: real), (''D'', 0.3), (''C'', 0.2), (''A'', 0.1)] =
      [(''B'', 0.4), (''D'', 0.3), (''C'', 0.2)]"
    by (simp add: head3_def)
  from prob_df_sorted_descending [OF len]
  have "\<exists>df. prob_df [''A'', ''B'', ''C'', ''D''] [0.1, 0.4, 0.2, 0.3] = Inr df \<and>
         sorted_wrt (\<lambda>r s. probability s \<le> probability r) df \<and>
         length (head3 df) = 3"
    by auto
  with len run top show ?thesis by blast
qed

subsection \<open>The BMI tab\<close>

lemma bmi_comment_band:
  "bmi_comment bmi = band_comment b \<longleftrightarrow> band_range b bmi"
  by (cases b) (simp_all add: bmi_comment_def)

lemma band_range_total: "\<exists>b. band_range b bmi"
proof -
  consider "bmi < 18.5" | "18.5 \<le> bmi" "bmi < 25" | "25 \<le> bmi" "bmi < 30" | "30 \<le> bmi"
    by linarith
  then show ?thesis
  proof cases
    case 1 then have "band_range Underweight bmi" by simp then show ?thesis ..
  next
    case 2 then have "band_range Healthy bmi" by simp then show ?thesis ..
  next
    case 3 then have "band_range Overweight bmi" by simp then show ?thesis ..
  next
    case 4 then have "band_range High bmi" by simp then show ?thesis ..
  qed
qed

lemma band_range_unique: "band_range b bmi \<Longrightarrow> band_range b' bmi \<Longrightarrow> b = b'"
  by (cases b; cases b'; simp)

lemma band_range_mono:
  "bmi1 \<le> bmi2 \<Longrightarrow> band_range b1 bmi1 \<Longrightarrow> band_range b2 bmi2 \<Longrightarrow> band_rank b1 \<le> band_rank b2"
  by (cases b1; cases b2; simp)

lemma round_half_even_error: "\<bar>of_int (round_half_even y) - y\<bar> \<le> 1 / 2"
  unfolding round_half_even_def Let_def by (auto; linarith)

lemma round_half_even_of_int: "round_half_even (of_int m) = m"
  by (simp add: round_half_even_def)

lemma floorlog2_bounds_ge1:
  assumes "1 \<le> x"
  shows "0 \<le> floorlog2 x \<and> 2 ^ nat (floorlog2 x) \<le> x \<and> x < 2 * 2 ^ nat (floorlog2 x)"
proof -
  let ?n = "\<lfloor>x\<rfloor>"
  have n: "0 < ?n" using assms by linarith
  from bitlen_bounds [OF n]
  have lo: "2 ^ nat (bitlen ?n - 1) \<le> ?n" and hi: "?n < 2 ^ nat (bitlen ?n)"
    by auto
  have bpos: "1 \<le> bitlen ?n"
  proof (rule ccontr)
    assume "\<not> 1 \<le> bitlen ?n"
    then have "nat (bitlen ?n) = 0" by simp
    with hi have "?n < 1" by simp
    with n show False by simp
  qed
  have fl: "floorlog2 x = bitlen ?n - 1"
    using assms by (simp add: floorlog2_def)
  have "(2::real) ^ nat (bitlen ?n - 1) = of_int (2 ^ nat (bitlen ?n - 1))"
    by simp
  also have "\<dots> \<le> of_int ?n"
    using lo by (simp only: of_int_le_iff)
  also have "\<dots> \<le> x" by simp
  finally have a: "2 ^ nat (floorlog2 x) \<le> x"
    using fl by simp
  have "?n + 1 \<le> 2 ^ nat (bitlen ?n)"
    using hi by simp
  then have "of_int (?n + 1) \<le> (of_int (2 ^ nat (bitlen ?n)) :: real)"
    by (simp only: of_int_le_iff)
  then have "of_int ?n + 1 \<le> (2 ^ nat (bitlen ?n) :: real)"
    by simp
  moreover have "x < of_int ?n + 1"
    by linarith
  ultimately have "x < 2 ^ nat (bitlen ?n)"
    by linarith
  moreover have "nat (bitlen ?n) = Suc (nat (bitlen ?n - 1))"
    using bpos by simp
  ultimately have b: "x < 2 * 2 ^ nat (floorlog2 x)"
    using fl by simp
  from a b fl bpos show ?thesis by simp
qed

lemma binary64_eq:
  assumes "1 \<le> x"
  shows "binary64 x =
           of_int (round_half_even (x * 2 ^ 52 / 2 ^ nat (floorlog2 x))) *
           (2 ^ nat (floorlog2 x) / 2 ^ 52)"
proof -
  define k where "k = floorlog2 x"
  from floorlog2_bounds_ge1 [OF assms] have k0: "0 \<le> k"
    by (simp add: k_def)
  have "(2::real) powi (k - 52) = 2 powi k / 2 powi 52"
    by (rule power_int_diff) simp
  also have "2 powi k = (2::real) ^ nat k"
    using k0 by (simp add: power_int_def)
  finally have p: "(2::real) powi (k - 52) = 2 ^ nat k / 2 ^ 52"
    by simp
  have e: "max (floorlog2 \<bar>x\<bar> - 52) (- 1074) = k - 52"
    using assms k0 by (simp add: k_def)
  have x0: "x \<noteq> 0" using assms by simp
  show ?thesis
    using x0 by (simp add: binary64_def e Let_def p flip: k_def)
qed

lemma binary64_error:
  assumes "1 \<le> x"
  shows "\<bar>binary64 x - x\<bar> \<le> x / 2 ^ 53"
proof -
  define k where "k = floorlog2 x"
  define p :: real where "p = 2 powi (k - 52)"
  from floorlog2_bounds_ge1 [OF assms]
  have k0: "0 \<le> k" and lo: "2 ^ nat k \<le> x"
    by (simp_all add: k_def)
  have ppos: "0 < p"
    by (simp add: p_def zero_less_power_int)
  have "p = 2 powi k / 2 powi 52"
    unfolding p_def by (rule power_int_diff) simp
  also have "2 powi k = (2::real) ^ nat k"
    using k0 by (simp add: power_int_def)
  finally have p: "p = 2 ^ nat k / 2 ^ 52"
    by simp
  have e: "max (floorlog2 \<bar>x\<bar> - 52) (- 1074) = k - 52"
    using assms k0 by (simp add: k_def)
  have x0: "x \<noteq> 0" using assms by simp
  have b: "binary64 x = of_int (round_half_even (x / p)) * p"
    using x0 by (simp add: binary64_def e Let_def p_def)
  have "binary64 x - x = (of_int (round_half_even (x / p)) - x / p) * p"
    using ppos by (simp add: b algebra_simps)
  then have "\<bar>binary64 x - x\<bar> = \<bar>of_int (round_half_even (x / p)) - x / p\<bar> * p"
    using ppos by (simp add: abs_mult)
  also have "\<dots> \<le> 1 / 2 * p"
    using round_half_even_error [of "x / p"] ppos by (simp add: mult_right_mono)
  also have "\<dots> = 2 ^ nat k / 2 ^ 53"
    by (simp add: p)
  also have "\<dots> \<le> x / 2 ^ 53"
    using lo by (simp add: divide_right_mono)
  finally show ?thesis .
qed

lemma binary64_bounds:
  assumes "1 \<le> x"
  shows "x * (1 - 1 / 2 ^ 53) \<le> binary64 x" and "binary64 x \<le> x * (1 + 1 / 2 ^ 53)"
proof -
  from binary64_error [OF assms]
  have "x - binary64 x \<le> x / 2 ^ 53" and "binary64 x - x \<le> x / 2 ^ 53"
    by linarith+
  then show "x * (1 - 1 / 2 ^ 53) \<le> binary64 x" and "binary64 x \<le> x * (1 + 1 / 2 ^ 53)"
    by (simp_all add: algebra_simps)
qed

lemma binary64_of_int:
  assumes "1 \<le> n" and "n < 2 ^ 52"
  shows "binary64 (of_int n) = of_int n"
proof -
  define x :: real where "x = of_int n"
  define j where "j = nat (floorlog2 x)"
  have x1: "1 \<le> x" using assms(1) by (simp add: x_def)
  from floorlog2_bounds_ge1 [OF x1] have lo: "2 ^ j \<le> x"
    by (simp add: j_def)
  have "x < 2 ^ 52"
    using assms(2) unfolding x_def by (metis of_int_less_iff of_int_numeral of_int_power)
  with lo have "(2::real) ^ j < 2 ^ 52" by linarith
  then have j: "j < 52"
    by (rule power_less_imp_less_exp [rotated]) simp
  then have "(2::real) ^ 52 = 2 ^ (52 - j) * 2 ^ j"
    by (simp flip: power_add)
  then have "x * 2 ^ 52 / 2 ^ j = x * (2 ^ (52 - j) * 2 ^ j) / 2 ^ j"
    by (simp only:)
  also have "\<dots> = x * 2 ^ (52 - j)"
    by simp
  finally have q: "x * 2 ^ 52 / 2 ^ j = of_int (n * 2 ^ (52 - j))"
    by (simp add: x_def)
  have s: "(2::real) ^ j / 2 ^ 52 = 1 / 2 ^ (52 - j)"
    using j by (simp add: power_diff)
  have "binary64 x = of_int (round_half_even (x * 2 ^ 52 / 2 ^ j)) * (2 ^ j / 2 ^ 52)"
    using binary64_eq [OF x1] by (simp add: j_def)
  also have "\<dots> = of_int (n * 2 ^ (52 - j)) * (1 / 2 ^ (52 - j))"
    by (simp only: q round_half_even_of_int s)
  also have "\<dots> = x"
    by (simp add: x_def)
  finally show ?thesis by (simp add: x_def)
qed




lemma height_m_float:
  assumes "height_input h"
  shows "11 / 10 \<le> binary64 (of_int h / 100)" and "binary64 (of_int h / 100) \<le> 3"
proof -
  have a: "(6 / 5 :: real) \<le> of_int h / 100" "(of_int h / 100 :: real) \<le> 23 / 10"
    using assms by (simp_all add: height_input_def)
  then have "(1::real) \<le> of_int h / 100" by linarith
  from binary64_bounds [OF this] a
  show "11 / 10 \<le> binary64 (of_int h / 100)" and "binary64 (of_int h / 100) \<le> 3"
    by simp_all
qed

lemma height_m_squared_float:
  assumes "11 / 10 \<le> A" and "A \<le> 3"
  shows "1 \<le> binary64 (A\<^sup>2)" and "binary64 (A\<^sup>2) \<le> 10"
proof -
  have "(11 / 10)\<^sup>2 \<le> A\<^sup>2"
    by (rule power_mono) (use assms in simp_all)
  then have lo': "121 / 100 \<le> A\<^sup>2"
    by (simp add: power2_eq_square)
  then have lo: "1 \<le> A\<^sup>2"
    by linarith
  have "A\<^sup>2 \<le> 3\<^sup>2"
    by (rule power_mono) (use assms in simp_all)
  then have hi: "A\<^sup>2 \<le> 9" by simp
  from binary64_bounds [OF lo] lo' hi
  show "1 \<le> binary64 (A\<^sup>2)" and "binary64 (A\<^sup>2) \<le> 10"
    by simp_all
qed

lemma finite64_small: "0 \<le> r \<Longrightarrow> r \<le> 1000 \<Longrightarrow> finite64 r"
  by (simp add: finite64_def)

lemma bmi_steps:
  assumes "height_input h"
  shows "int_truediv h 100 = Inr (binary64 (of_int h / 100))"
    and "float_pow2 (binary64 (of_int h / 100)) =
           Inr (binary64 ((binary64 (of_int h / 100))\<^sup>2))"
    and "1 \<le> binary64 ((binary64 (of_int h / 100))\<^sup>2)"
    and "binary64 ((binary64 (of_int h / 100))\<^sup>2) \<le> 10"
proof -
  let ?A = "binary64 (of_int h / 100)"
  let ?S = "binary64 (?A\<^sup>2)"
  have A: "11 / 10 \<le> ?A" "?A \<le> 3"
    using height_m_float [OF assms] by simp_all
  have S: "1 \<le> ?S" "?S \<le> 10"
    using height_m_squared_float [OF A] by simp_all
  have "finite64 ?A"
    using A by (intro finite64_small) simp_all
  then show "int_truediv h 100 = Inr ?A"
    by (simp add: int_truediv_def)
  have "finite64 ?S"
    using S by (intro finite64_small) simp_all
  then show "float_pow2 ?A = Inr ?S"
    by (simp add: float_pow2_def)
  from S show "1 \<le> ?S" and "?S \<le> 10"
    by simp_all
qed

lemma bmi_value_steps:
  assumes "height_input h"
  shows "bmi_value h w = int_float_truediv w (binary64 ((binary64 (of_int h / 100))\<^sup>2))"
  by (simp add: bmi_value_def bmi_steps(1,2) [OF assms])

lemma int_float_truediv_nonzero: "b \<noteq> 0 \<Longrightarrow> int_float_truediv a b \<noteq> Inl ZeroDivisionError"
  by (simp add: int_float_truediv_def Let_def)

lemma bmi_value_in_bounds:
  assumes "height_input h" and "weight_input w"
  shows "bmi_value h w =
           Inr (Finite (binary64 (of_int w / binary64 ((binary64 (of_int h / 100))\<^sup>2))))"
proof -
  let ?S = "binary64 ((binary64 (of_int h / 100))\<^sup>2)"
  have S: "1 \<le> ?S" "?S \<le> 10"
    using bmi_steps(3,4) [OF assms(1)] by simp_all
  have w: "(35::real) \<le> of_int w" "(of_int w :: real) \<le> 200"
    using assms(2) by (simp_all add: weight_input_def)
  have "1 \<le> w" "w < 2 ^ 52"
    using assms(2) by (simp_all add: weight_input_def)
  then have fw: "binary64 (of_int w) = of_int w"
    by (rule binary64_of_int)
  have "finite64 (of_int w)"
    using w by (intro finite64_small) simp_all
  then have fin_w: "finite64 (binary64 (of_int w))"
    by (simp only: fw)
  have "of_int w / 10 \<le> of_int w / ?S"
    using S w by (intro divide_left_mono) simp_all
  then have q_lo: "1 \<le> of_int w / ?S"
    using w by linarith
  have "of_int w / ?S \<le> of_int w / 1"
    using S w by (intro divide_left_mono) simp_all
  then have q_hi: "of_int w / ?S \<le> 200"
    using w by simp
  from binary64_bounds [OF q_lo] q_lo q_hi
  have "0 \<le> binary64 (of_int w / ?S)" "binary64 (of_int w / ?S) \<le> 1000"
    by simp_all
  then have fin_q: "finite64 (binary64 (of_int w / ?S))"
    by (rule finite64_small)
  have S0: "?S \<noteq> 0"
    using S by simp
  have "int_float_truediv w ?S = Inr (Finite (binary64 (of_int w / ?S)))"
    unfolding int_float_truediv_def Let_def fw using fin_w fin_q S0 by (simp add: fw)
  then show ?thesis
    by (simp only: bmi_value_steps [OF assms(1)])
qed



lemma binary64_zero: "binary64 0 = 0"
  by (simp add: binary64_def)

lemma height_170: "height_input 170"
  by (simp add: height_input_def)

lemma weight_70: "weight_input 70"
  by (simp add: weight_input_def)




lemma binary64_170_70:
  "binary64 (of_int 70 / binary64 ((binary64 (of_int 170 / 100))\<^sup>2)) =
     1704433249978021 / 70368744177664"
  by code_simp



lemma binary64_120: "binary64 (of_int 120 / 100) = 5404319552844595 / 4503599627370496"
  by code_simp

lemma bmi_value_170_70:
  "bmi_value 170 70 = Inr (Finite (1704433249978021 / 70368744177664))"
  using bmi_value_in_bounds [OF height_170 weight_70] by (simp only: binary64_170_70)


lemma bmi_value_0_35: "bmi_value 0 35 = Inl ZeroDivisionError"
proof -
  have "binary64 (of_int 35) = of_int 35"
    by (rule binary64_of_int) simp_all
  then have f: "binary64 35 = 35" by simp
  have g: "finite64 35" "finite64 0" by (simp_all add: finite64_def)
  have a: "int_truediv 0 100 = Inr 0"
    by (simp add: int_truediv_def binary64_zero g)
  have b: "float_pow2 0 = Inr 0"
    by (simp add: float_pow2_def binary64_zero g)
  have c: "int_float_truediv 35 0 = Inl ZeroDivisionError"
    by (simp add: int_float_truediv_def f g)
  show ?thesis
    by (simp add: bmi_value_def a b c)
qed

text \<open>
  Claim C1. The BMI banding shows the underweight comment exactly for a BMI below 18.5, the
  healthy comment exactly for a BMI from 18.5 up to but not including 25, the
  overweight comment exactly for a BMI from 25 up to but not including 30, and the
  high comment exactly for a BMI of 30 or more; the comment the tab shows is the one
  for the BMI it computed.
\<close>

theorem bmi_banding:
  "(bmi < 18.5 \<longrightarrow> bmi_comment bmi = St_info underweight_text) \<and>
   (18.5 \<le> bmi \<and> bmi < 25 \<longrightarrow> bmi_comment bmi = St_success healthy_text) \<and>
   (25 \<le> bmi \<and> bmi < 30 \<longrightarrow> bmi_comment bmi = St_warning overweight_text) \<and>
   (30 \<le> bmi \<longrightarrow> bmi_comment bmi = St_error high_text) \<and>
   (bmi_comment bmi = band_comment b \<longleftrightarrow> band_range b bmi) \<and>
   (bmi_check height_cm weight_kg = Inr (Finite bmi, comment) \<longrightarrow>
      comment = bmi_comment bmi)"
proof -
  have "bmi_comment bmi = band_comment b \<longleftrightarrow> band_range b bmi"
    by (rule bmi_comment_band)
  moreover have "bmi_check height_cm weight_kg = Inr (Finite bmi, comment) \<longrightarrow>
      comment = bmi_comment bmi"
    by (auto simp: bmi_check_def split: sum.splits pyfloat.splits)
  moreover have "bmi < 18.5 \<longrightarrow> bmi_comment bmi = St_info underweight_text"
    by (simp add: bmi_comment_def)
  moreover have "18.5 \<le> bmi \<and> bmi < 25 \<longrightarrow> bmi_comment bmi = St_success healthy_text"
    by (simp add: bmi_comment_def)
  moreover have "25 \<le> bmi \<and> bmi < 30 \<longrightarrow> bmi_comment bmi = St_warning overweight_text"
    by (simp add: bmi_comment_def)
  moreover have "30 \<le> bmi \<longrightarrow> bmi_comment bmi = St_error high_text"
    by (simp add: bmi_comment_def)
  ultimately show ?thesis by blast
qed

theorem bmi_banding_witness:
  "(17::real) < 18.5 \<and> bmi_comment 17 = St_info underweight_text \<and>
   (25::real) \<le> 25 \<and> (25::real) < 30 \<and> bmi_comment 25 = St_warning overweight_text \<and>
   (30::real) \<le> 30 \<and> bmi_comment 30 = St_error high_text \<and>
   (18.5::real) \<le> 1704433249978021 / 70368744177664 \<and>
   (1704433249978021 / 70368744177664 :: real) < 25 \<and>
   band_range Healthy (1704433249978021 / 70368744177664) \<and>
   bmi_check 170 70 =
     Inr (Finite (1704433249978021 / 70368744177664), St_success healthy_text) \<and>
   bmi_comment (1704433249978021 / 70368744177664) = band_comment Healthy \<and>
   St_success healthy_text = bmi_comment (1704433249978021 / 70368744177664)"
proof -
  have k: "bmi_comment (1704433249978021 / 70368744177664) = St_success healthy_text"
    by (simp add: bmi_comment_def)
  have c: "bmi_check 170 70 =
      Inr (Finite (1704433249978021 / 70368744177664), St_success healthy_text)"
    by (simp add: bmi_check_def bmi_value_170_70 k)
  have r: "band_range Healthy (1704433249978021 / 70368744177664)"
    by simp
  have u: "(17::real) < 18.5"
    by simp
  note w1 = bmi_banding [of 17 Underweight 170 70 "St_success healthy_text"]
  note w2 = bmi_banding [of "1704433249978021 / 70368744177664" Healthy 170 70
      "St_success healthy_text"]
  from w1 u have "bmi_comment 17 = St_info underweight_text"
    by blast
  moreover have o: "(25::real) \<le> 25 \<and> (25::real) < 30"
    by simp
  moreover from o bmi_banding [of 25 Overweight 170 70 "St_success healthy_text"]
  have "bmi_comment 25 = St_warning overweight_text"
    by blast
  moreover have h: "(30::real) \<le> 30"
    by simp
  moreover from h bmi_banding [of 30 High 170 70 "St_success healthy_text"]
  have "bmi_comment 30 = St_error high_text"
    by blast
  moreover have m: "(18.5::real) \<le> 1704433249978021 / 70368744177664 \<and>
      (1704433249978021 / 70368744177664 :: real) < 25"
    by simp
  moreover from w2 r have "bmi_comment (1704433249978021 / 70368744177664) =
      band_comment Healthy"
    by blast
  moreover from w2 c have "St_success healthy_text =
      bmi_comment (1704433249978021 / 70368744177664)"
    by blast
  ultimately show ?thesis using u r c by blast
qed

text \<open>
  Claim C4. The bands are exhaustive and monotonic: every BMI lies in exactly one band and
  gets the comment of exactly one band, and of two BMI values the smaller one never
  gets a higher band (underweight, healthy, overweight, high, from lowest to highest).
\<close>

theorem bmi_bands_exhaustive_monotonic:
  "(\<exists>!b. band_range b bmi) \<and>
   (\<exists>!b. bmi_comment bmi = band_comment b) \<and>
   (bmi1 \<le> bmi2 \<longrightarrow> bmi_comment bmi1 = band_comment b1 \<longrightarrow>
      bmi_comment bmi2 = band_comment b2 \<longrightarrow> band_rank b1 \<le> band_rank b2)"
proof -
  have ex1: "\<exists>!b. band_range b bmi"
    using band_range_total band_range_unique by blast
  then have "\<exists>!b. bmi_comment bmi = band_comment b"
    by (simp only: bmi_comment_band)
  moreover have "bmi1 \<le> bmi2 \<longrightarrow> bmi_comment bmi1 = band_comment b1 \<longrightarrow>
      bmi_comment bmi2 = band_comment b2 \<longrightarrow> band_rank b1 \<le> band_rank b2"
    unfolding bmi_comment_band using band_range_mono by blast
  ultimately show ?thesis using ex1 by blast
qed

theorem bmi_bands_exhaustive_monotonic_witness:
  "(18.4 :: real) \<le> 31 \<and> bmi_comment 18.4 = band_comment Underweight \<and>
   bmi_comment 31 = band_comment High \<and> band_rank Underweight \<le> band_rank High \<and>
   (\<exists>!b. band_range b 31)"
proof -
  have a: "bmi_comment 18.4 = band_comment Underweight"
    by (simp add: bmi_comment_def)
  have b: "bmi_comment 31 = band_comment High"
    by (simp add: bmi_comment_def)
  from bmi_bands_exhaustive_monotonic [of 31 "18.4" 31 Underweight High] a b
  show ?thesis by simp
qed




text \<open>
  Claim C9. For a height within the bounds of the height input, 120 to 230, the height in
  metres is strictly positive, its square is not zero, and the BMI computation does
  not raise \<^verbatim>\<open>ZeroDivisionError\<close>, whatever the weight. This holds of the exact
  values and of the binary64 values the code computes.
\<close>

theorem bmi_division_safe:
  assumes "height_input height_cm"
  shows "int_truediv height_cm 100 = Inr (binary64 (of_int height_cm / 100)) \<and>
         0 < binary64 (of_int height_cm / 100) \<and>
         float_pow2 (binary64 (of_int height_cm / 100)) =
           Inr (binary64 ((binary64 (of_int height_cm / 100))\<^sup>2)) \<and>
         binary64 ((binary64 (of_int height_cm / 100))\<^sup>2) \<noteq> 0 \<and>
         (0::real) < of_int height_cm / 100 \<and>
         (of_int height_cm / 100 :: real) ^ 2 \<noteq> 0 \<and>
         bmi_value height_cm weight_kg \<noteq> Inl ZeroDivisionError"
proof -
  have pos: "(0::real) < of_int height_cm / 100"
    using assms by (simp add: height_input_def)
  then have sq: "(of_int height_cm / 100 :: real) ^ 2 \<noteq> 0"
    by simp
  have A: "0 < binary64 (of_int height_cm / 100)"
    using height_m_float(1) [OF assms] by linarith
  have S: "binary64 ((binary64 (of_int height_cm / 100))\<^sup>2) \<noteq> 0"
    using bmi_steps(3) [OF assms] by linarith
  then have "bmi_value height_cm weight_kg \<noteq> Inl ZeroDivisionError"
    unfolding bmi_value_steps [OF assms] by (rule int_float_truediv_nonzero)
  with pos sq A S bmi_steps(1,2) [OF assms] show ?thesis
    by blast
qed

theorem bmi_division_safe_witness:
  "height_input 120 \<and>
   int_truediv 120 100 = Inr (5404319552844595 / 4503599627370496) \<and>
   bmi_value 120 35 \<noteq> Inl ZeroDivisionError \<and>
   bmi_value 0 35 = Inl ZeroDivisionError"
proof -
  have h: "height_input 120" by (simp add: height_input_def)
  note d = bmi_division_safe [OF h, of 35, unfolded binary64_120]
  from d have "int_truediv 120 100 = Inr (5404319552844595 / 4503599627370496)"
    by blast
  moreover from d have "bmi_value 120 35 \<noteq> Inl ZeroDivisionError"
    by blast
  ultimately show ?thesis
    using h bmi_value_0_35 by blast
qed

end
